theory Spec2Isabelle
  imports Main
begin

section \<open>The Optional container of Optional.hpp\<close>

text \<open>
  \<^verbatim>\<open>Optional<T>\<close> holds a presence flag \<^verbatim>\<open>has_value_\<close> and a byte buffer
  \<^verbatim>\<open>value_\<close> into which a \<^verbatim>\<open>T\<close> is built with \<^verbatim>\<open>std::construct_at\<close> and torn
  down with an explicit destructor call. The embedding keeps both members apart, because
  the code writes them in separate statements and they can disagree.
\<close>

subsection \<open>Data\<close>

text \<open>
  The buffer either holds no object (\<open>Raw\<close>: zero-filled, never constructed, or already
  destroyed) or a live \<^verbatim>\<open>T\<close> with a value.
\<close>

datatype 'v slot = Raw | Live 'v

text \<open>Lifetime events of the buffer: a \<^verbatim>\<open>T\<close> was constructed in it, or destroyed in it.\<close>

datatype 'v event = Construct 'v | Destroy

text \<open>
  The two members of the class (\<^verbatim>\<open>has_value_\<close> and \<^verbatim>\<open>value_\<close>; a name cannot end in an
  underscore here), and a ghost field \<open>history\<close> that records, in order, the lifetime
  events of the buffer since the object was created.
\<close>

record 'v Optional =
  has_value_flag :: bool
  value_buf :: "'v slot"
  history :: "'v event list"

text \<open>
  \<open>BadAccess\<close> is the \<^verbatim>\<open>std::runtime_error("Bad Optional access")\<close> of
  \<^verbatim>\<open>_throw_if_inactive\<close>. \<open>T_exception\<close> is an exception thrown by a constructor of the
  contained type, which the container lets through. \<open>InvalidStorage\<close> marks the
  dereference of a buffer that holds no \<^verbatim>\<open>T\<close>, which C++ leaves undefined.
\<close>

datatype error = BadAccess | T_exception | InvalidStorage

text \<open>The value category of the expression a member function is called on.\<close>

datatype category = LValue | ConstLValue | RValue

subsection \<open>Member functions as state transformers\<close>

text \<open>
  A member function takes the object and returns its outcome together with the object as
  it leaves it; an exception is an \<open>Inl\<close> outcome, and the writes made before the throw
  stay in the returned object.
\<close>

type_synonym ('s, 'r) action = "'s \<Rightarrow> (error + 'r) \<times> 's"

definition ret :: "'r \<Rightarrow> ('s, 'r) action" where
  "ret x s = (Inr x, s)"

definition throw :: "error \<Rightarrow> ('s, 'r) action" where
  "throw e s = (Inl e, s)"

definition seq :: "('s, 'a) action \<Rightarrow> ('a \<Rightarrow> ('s, 'b) action) \<Rightarrow> ('s, 'b) action" where
  "seq m f s = (case m s of (Inl e, s') \<Rightarrow> (Inl e, s') | (Inr x, s') \<Rightarrow> f x s')"

text \<open>The assignment \<^verbatim>\<open>has_value_ = b\<close>.\<close>

definition set_has_value :: "bool \<Rightarrow> ('v Optional, unit) action" where
  "set_has_value b c = (Inr (), c\<lparr>has_value_flag := b\<rparr>)"

text \<open>
  \<^verbatim>\<open>_throw_if_inactive\<close> (a name cannot start with an underscore here): throws when the flag
  is false.
\<close>

definition throw_if_inactive :: "('v Optional, unit) action" where
  "throw_if_inactive c = (if \<not> has_value_flag c then throw BadAccess c else ret () c)"

text \<open>\<^verbatim>\<open>*std::launder(reinterpret_cast<T*>(&value_))\<close>: reads the buffer as a \<^verbatim>\<open>T\<close>.\<close>

definition launder :: "('v Optional, 'v) action" where
  "launder c = (case value_buf c of Live v \<Rightarrow> ret v c | Raw \<Rightarrow> throw InvalidStorage c)"

text \<open>\<^verbatim>\<open>value() &\<close> and \<^verbatim>\<open>value() const&\<close>: the check, then a reference to the stored object.\<close>

definition value_lvalue :: "('v Optional, 'v) action" where
  "value_lvalue = seq throw_if_inactive (\<lambda>_. launder)"

definition value_const_lvalue :: "('v Optional, 'v) action" where
  "value_const_lvalue = seq throw_if_inactive (\<lambda>_. launder)"

text \<open>\<^verbatim>\<open>value().~T()\<close>: the destructor call on the stored object.\<close>

definition destroy_value :: "('v Optional, unit) action" where
  "destroy_value =
     seq value_lvalue (\<lambda>_ c. ret () (c\<lparr>value_buf := Raw, history := history c @ [Destroy]\<rparr>))"

text \<open>
  \<^verbatim>\<open>release_value\<close>: check, move the stored object into the local \<^verbatim>\<open>released\<close>, destroy the
  stored object, reset the flag, return the local. Moving a \<^verbatim>\<open>T\<close> is taken to succeed and
  to carry the value over.
\<close>

definition release_value :: "('v Optional, 'v) action" where
  "release_value =
     seq throw_if_inactive (\<lambda>_.
     seq value_lvalue (\<lambda>released.
     seq destroy_value (\<lambda>_.
     seq (set_has_value False) (\<lambda>_.
     ret released))))"

text \<open>\<^verbatim>\<open>value() &&\<close> releases ownership.\<close>

definition value_rvalue :: "('v Optional, 'v) action" where
  "value_rvalue = release_value"

text \<open>\<^verbatim>\<open>std::forward<decltype(self)>(self).value()\<close>: the overload the category selects.\<close>

fun forward_value :: "category \<Rightarrow> ('v Optional, 'v) action" where
  "forward_value LValue = value_lvalue"
| "forward_value ConstLValue = value_const_lvalue"
| "forward_value RValue = value_rvalue"

definition has_value :: "'v Optional \<Rightarrow> bool" where
  "has_value c = has_value_flag c"

text \<open>\<^verbatim>\<open>clear\<close>: destroy the stored object if the flag is set, then reset the flag.\<close>

definition clear :: "('v Optional, unit) action" where
  "clear =
     seq (\<lambda>c. if has_value_flag c then destroy_value c else ret () c) (\<lambda>_.
     set_has_value False)"

text \<open>\<^verbatim>\<open>~Optional() { clear(); }\<close>\<close>

definition Optional_dtor :: "('v Optional, unit) action" where
  "Optional_dtor = clear"

text \<open>
  \<^verbatim>\<open>operator*\<close>: its own check, then the overload of \<^verbatim>\<open>value()\<close> the category selects.
  \<^verbatim>\<open>operator->\<close> takes the address of the same expression.
\<close>

definition deref :: "category \<Rightarrow> ('v Optional, 'v) action" where
  "deref cat = seq throw_if_inactive (\<lambda>_. forward_value cat)"

subsection \<open>Building the contained object\<close>

text \<open>
  The contained type is a parameter of the template: a constructor of \<^verbatim>\<open>T\<close> is a function
  from its arguments to the value it builds, or to the exception it throws. The copy and
  the move constructor of \<^verbatim>\<open>T\<close> are taken to succeed and to carry the value over.
\<close>

definition T_copy :: "'v \<Rightarrow> error + 'v" where
  "T_copy v = Inr v"

definition T_move :: "'v \<Rightarrow> error + 'v" where
  "T_move v = Inr v"

text \<open>
  \<^verbatim>\<open>std::construct_at<T>(reinterpret_cast<T*>(&value_), args...)\<close>: runs the constructor;
  when it returns, a \<^verbatim>\<open>T\<close> lives in the buffer; when it throws, the buffer is as before.
\<close>

definition construct_at :: "('a \<Rightarrow> error + 'v) \<Rightarrow> 'a \<Rightarrow> ('v Optional, unit) action" where
  "construct_at T_ctor args c =
     (case T_ctor args of
        Inl e \<Rightarrow> throw e c
      | Inr v \<Rightarrow> ret () (c\<lparr>value_buf := Live v, history := history c @ [Construct v]\<rparr>))"

text \<open>\<^verbatim>\<open>emplace\<close>: clear, set the flag, construct, in the order of the source.\<close>

definition emplace :: "('a \<Rightarrow> error + 'v) \<Rightarrow> 'a \<Rightarrow> ('v Optional, unit) action" where
  "emplace T_ctor args =
     seq clear (\<lambda>_.
     seq (set_has_value True) (\<lambda>_.
     construct_at T_ctor args))"

subsection \<open>Constructors\<close>

text \<open>
  The object as a constructor body finds it. \<^verbatim>\<open>value_\<close> has the default member
  initializer \<^verbatim>\<open>{}\<close>, so the buffer is zero-filled and holds no \<^verbatim>\<open>T\<close>. \<^verbatim>\<open>bool has_value_;\<close>
  has none, so a constructor without a member initializer list leaves in it whatever the
  memory held: the parameter \<open>g\<close>.
\<close>

definition member_init :: "bool \<Rightarrow> 'v Optional" where
  "member_init g = \<lparr>has_value_flag = g, value_buf = Raw, history = []\<rparr>"

text \<open>
  A constructor body run on the object it finds. The object exists only when the body
  returns; when it throws, there is no object.
\<close>

definition construct_object :: "('v Optional, unit) action \<Rightarrow> bool \<Rightarrow> error + 'v Optional" where
  "construct_object body g =
     (case body (member_init g) of (Inl e, _) \<Rightarrow> Inl e | (Inr _, c) \<Rightarrow> Inr c)"

text \<open>\<^verbatim>\<open>Optional() : has_value_(false) {}\<close> and \<^verbatim>\<open>Optional(const __Nullopt&) : has_value_(false) {}\<close>\<close>

definition Optional_default :: "'v Optional" where
  "Optional_default = \<lparr>has_value_flag = False, value_buf = Raw, history = []\<rparr>"

definition Optional_nullopt :: "'v Optional" where
  "Optional_nullopt = \<lparr>has_value_flag = False, value_buf = Raw, history = []\<rparr>"

text \<open>The forwarding constructor: construct, then set the flag.\<close>

definition Optional_forward :: "('a \<Rightarrow> error + 'v) \<Rightarrow> 'a \<Rightarrow> bool \<Rightarrow> error + 'v Optional" where
  "Optional_forward T_ctor args =
     construct_object (seq (construct_at T_ctor args) (\<lambda>_. set_has_value True))"

text \<open>
  The copy constructor: returns at once when \<open>other\<close> has no value; otherwise copies
  \<^verbatim>\<open>other.value()\<close> into the buffer and sets the flag. \<open>other\<close> is const.
\<close>

definition Optional_copy :: "bool \<Rightarrow> 'v Optional \<Rightarrow> error + 'v Optional" where
  "Optional_copy g other =
     (if \<not> has_value_flag other then construct_object (ret ()) g
      else (case value_const_lvalue other of
              (Inl e, _) \<Rightarrow> Inl e
            | (Inr v, _) \<Rightarrow>
                construct_object (seq (construct_at T_copy v) (\<lambda>_. set_has_value True)) g))"

text \<open>
  The move constructor: returns at once when \<open>other\<close> has no value; otherwise builds the
  buffer from \<^verbatim>\<open>other.release_value()\<close> and sets the flag. The second component is
  \<open>other\<close> as the constructor leaves it.
\<close>

definition Optional_move :: "bool \<Rightarrow> 'v Optional \<Rightarrow> (error + 'v Optional) \<times> 'v Optional" where
  "Optional_move g other =
     (if \<not> has_value_flag other then (construct_object (ret ()) g, other)
      else (case release_value other of
              (Inl e, other') \<Rightarrow> (Inl e, other')
            | (Inr v, other') \<Rightarrow>
                (construct_object (seq (construct_at T_move v) (\<lambda>_. set_has_value True)) g,
                 other')))"

subsection \<open>Fallback, chaining and mapping\<close>

text \<open>\<^verbatim>\<open>value_or\<close>: the forwarded \<^verbatim>\<open>value()\<close> when the flag is set, else the fallback.\<close>

definition value_or :: "category \<Rightarrow> 'v \<Rightarrow> ('v Optional, 'v) action" where
  "value_or cat val c = (if has_value_flag c then forward_value cat c else ret val c)"

text \<open>
  A callable \<open>fn\<close> receives the value and the caller's environment \<open>u\<close>, and returns its
  result, the argument object as it leaves it, and the environment as it leaves it. Called
  on a non-const lvalue, \<open>fn\<close> receives a \<^verbatim>\<open>T&\<close> into the buffer, so what it writes to
  its argument lands there; a \<^verbatim>\<open>const T&\<close> cannot be written, and on an rvalue the
  argument is the temporary that \<^verbatim>\<open>value() &&\<close> returned.
\<close>

fun write_back :: "category \<Rightarrow> 'v \<Rightarrow> 'v Optional \<Rightarrow> 'v Optional" where
  "write_back LValue v c = c\<lparr>value_buf := Live v\<rparr>"
| "write_back ConstLValue v c = c"
| "write_back RValue v c = c"

text \<open>
  \<^verbatim>\<open>and_then\<close>: when the flag is set, calls \<open>fn\<close> on the forwarded \<^verbatim>\<open>value()\<close> and drops
  what it returns; returns \<^verbatim>\<open>self\<close>, here the object in the second component.
\<close>

definition and_then ::
  "category \<Rightarrow> ('v \<Rightarrow> 'u \<Rightarrow> 'r \<times> 'v \<times> 'u) \<Rightarrow> 'v Optional \<Rightarrow> 'u \<Rightarrow> (error + unit) \<times> 'v Optional \<times> 'u"
where
  "and_then cat fn c u =
     (if has_value_flag c then
        (case forward_value cat c of
           (Inl e, c') \<Rightarrow> (Inl e, c', u)
         | (Inr v, c') \<Rightarrow> (case fn v u of (r, v', u') \<Rightarrow> (Inr (), write_back cat v' c', u')))
      else (Inr (), c, u))"

text \<open>
  \<^verbatim>\<open>transform\<close>: when the flag is set, \<^verbatim>\<open>OptionType{ fn(forwarded value()) }\<close>, the forwarding
  constructor of the mapped container on the result of \<open>fn\<close>; otherwise \<^verbatim>\<open>OptionType{}\<close>,
  its default constructor. \<open>g\<close> is what the memory of the returned object held.
\<close>

definition transform ::
  "category \<Rightarrow> ('v \<Rightarrow> 'u \<Rightarrow> 'r \<times> 'v \<times> 'u) \<Rightarrow> bool \<Rightarrow> 'v Optional \<Rightarrow> 'u
     \<Rightarrow> (error + 'r Optional) \<times> 'v Optional \<times> 'u"
where
  "transform cat fn g c u =
     (if has_value_flag c then
        (case forward_value cat c of
           (Inl e, c') \<Rightarrow> (Inl e, c', u)
         | (Inr v, c') \<Rightarrow>
             (case fn v u of (r, v', u') \<Rightarrow>
                (Optional_forward T_move r g, write_back cat v' c', u')))
      else (Inr Optional_default, c, u))"

subsection \<open>Comparison\<close>

text \<open>
  \<open>eq\<close> is the \<^verbatim>\<open>operator==\<close> of the contained type. Both operators only read, so they
  return an outcome and no object. Against a bare value:
  \<^verbatim>\<open>has_value_ && value() == other\<close>
\<close>

definition eq_value :: "('v \<Rightarrow> 'o \<Rightarrow> bool) \<Rightarrow> 'v Optional \<Rightarrow> 'o \<Rightarrow> error + bool" where
  "eq_value eq c other =
     (if has_value_flag c then
        (case value_lvalue c of (Inl e, _) \<Rightarrow> Inl e | (Inr v, _) \<Rightarrow> Inr (eq v other))
      else Inr False)"

text \<open>
  Against another container:
  \<^verbatim>\<open>has_value_ == other.has_value_ && (!has_value_ || value() == other.value())\<close>
\<close>

definition eq_optional ::
  "('v \<Rightarrow> 'o \<Rightarrow> bool) \<Rightarrow> 'v Optional \<Rightarrow> 'o Optional \<Rightarrow> error + bool"
where
  "eq_optional eq c other =
     (if has_value_flag c = has_value_flag other then
        (if \<not> has_value_flag c then Inr True
         else (case value_lvalue c of
                 (Inl e, _) \<Rightarrow> Inl e
               | (Inr v, _) \<Rightarrow>
                   (case value_const_lvalue other of
                      (Inl e, _) \<Rightarrow> Inl e
                    | (Inr w, _) \<Rightarrow> Inr (eq v w))))
      else Inr False)"

subsection \<open>Assignment, on a store\<close>

text \<open>
  \<^verbatim>\<open>a = b\<close> takes two references that may name the same object, so the assignments work
  on a store of objects and take the addresses \<open>this\<close> and \<open>other\<close>.
\<close>

type_synonym addr = nat

type_synonym 'v heap = "addr \<Rightarrow> 'v Optional"

text \<open>A member function run on the object at an address.\<close>

definition at_addr :: "addr \<Rightarrow> ('v Optional, 'r) action \<Rightarrow> ('v heap, 'r) action" where
  "at_addr a m h = (case m (h a) of (r, c) \<Rightarrow> (r, h(a := c)))"

text \<open>
  \<^verbatim>\<open>operator=(Optional&& other)\<close>: clear; when \<open>other\<close> has a value, set the flag, then
  build the buffer from \<^verbatim>\<open>other.release_value()\<close>; return \<^verbatim>\<open>*this\<close>.
\<close>

definition assign_move :: "addr \<Rightarrow> addr \<Rightarrow> ('v heap, addr) action" where
  "assign_move this other =
     seq (at_addr this clear) (\<lambda>_ h.
       if has_value_flag (h other) then
         seq (at_addr this (set_has_value True)) (\<lambda>_.
         seq (at_addr other release_value) (\<lambda>v.
         seq (at_addr this (construct_at T_move v)) (\<lambda>_.
         ret this))) h
       else ret this h)"

text \<open>
  \<^verbatim>\<open>operator=(const Optional& other)\<close>: clear; when \<open>other\<close> has a value, set the flag,
  then copy \<^verbatim>\<open>other.value()\<close> into the buffer; return \<^verbatim>\<open>*this\<close>.
\<close>

definition assign_copy :: "addr \<Rightarrow> addr \<Rightarrow> ('v heap, addr) action" where
  "assign_copy this other =
     seq (at_addr this clear) (\<lambda>_ h.
       if has_value_flag (h other) then
         seq (at_addr this (set_has_value True)) (\<lambda>_.
         seq (at_addr other value_const_lvalue) (\<lambda>v.
         seq (at_addr this (construct_at T_copy v)) (\<lambda>_.
         ret this))) h
       else ret this h)"

subsection \<open>Well-formed containers\<close>

text \<open>
  A container holds \<open>v\<close> when its flag is set and a \<^verbatim>\<open>T\<close> with value \<open>v\<close> lives in its
  buffer; it is absent when the flag is clear and the buffer holds no object; it is well
  formed when flag and buffer agree.
\<close>

definition holds :: "'v Optional \<Rightarrow> 'v \<Rightarrow> bool" where
  "holds c v \<longleftrightarrow> has_value_flag c \<and> value_buf c = Live v"

definition absent :: "'v Optional \<Rightarrow> bool" where
  "absent c \<longleftrightarrow> \<not> has_value_flag c \<and> value_buf c = Raw"

definition well_formed :: "'v Optional \<Rightarrow> bool" where
  "well_formed c = (case value_buf c of Raw \<Rightarrow> \<not> has_value_flag c | Live v \<Rightarrow> has_value_flag c)"

subsection \<open>Concrete objects for the examples\<close>

text \<open>The container that \<^verbatim>\<open>Optional<int>{42}\<close> builds.\<close>

definition forty_two :: "int Optional" where
  "forty_two = \<lparr>has_value_flag = True, value_buf = Live 42, history = [Construct 42]\<rparr>"

text \<open>A callable that doubles its argument and counts its calls in the environment.\<close>

definition count_call :: "int \<Rightarrow> nat \<Rightarrow> int \<times> int \<times> nat" where
  "count_call v n = (2 * v, v, Suc n)"

text \<open>A constructor of the contained type that throws.\<close>

definition T_throwing :: "unit \<Rightarrow> error + int" where
  "T_throwing args = Inl T_exception"

text \<open>A store with a container holding 7 at address 0, one holding 9 at address 1, empty ones elsewhere.\<close>

definition blank_heap :: "int heap" where
  "blank_heap a = Optional_default"

definition two_heap :: "int heap" where
  "two_heap =
     blank_heap
       (0 := \<lparr>has_value_flag = True, value_buf = Live 7, history = [Construct 7]\<rparr>,
        1 := \<lparr>has_value_flag = True, value_buf = Live 9, history = [Construct 9]\<rparr>)"

section \<open>Basic facts\<close>

lemmas action_defs =
  ret_def throw_def seq_def set_has_value_def throw_if_inactive_def launder_def
  value_lvalue_def value_const_lvalue_def value_rvalue_def destroy_value_def
  release_value_def clear_def

lemmas build_defs =
  construct_at_def construct_object_def member_init_def T_copy_def T_move_def
  Optional_forward_def Optional_default_def

subsection \<open>Sequencing\<close>

lemma seq_throws: "m s = (Inl e, s') \<Longrightarrow> seq m f s = (Inl e, s')"
  by (simp add: seq_def)

lemma seq_returns: "m s = (Inr x, s') \<Longrightarrow> seq m f s = f x s'"
  by (simp add: seq_def)

lemma at_addr_run: "m (h a) = (r, c) \<Longrightarrow> at_addr a m h = (r, h(a := c))"
  by (simp add: at_addr_def)

subsection \<open>Well-formedness\<close>

lemma holds_well_formed: "holds c v \<Longrightarrow> well_formed c"
  by (simp add: holds_def well_formed_def)

lemma absent_well_formed: "absent c \<Longrightarrow> well_formed c"
  by (simp add: absent_def well_formed_def)

lemma well_formed_cases: "well_formed c \<Longrightarrow> absent c \<or> (\<exists>v. holds c v)"
  by (cases "value_buf c") (simp_all add: well_formed_def absent_def holds_def)

lemma holds_not_absent: "holds c v \<Longrightarrow> \<not> absent c"
  by (simp add: holds_def absent_def)

lemma holds_unique: "holds c v \<Longrightarrow> holds c w \<Longrightarrow> v = w"
  by (simp add: holds_def)

subsection \<open>Access without a value\<close>

lemma throw_if_inactive_inactive: "\<not> has_value_flag c \<Longrightarrow> throw_if_inactive c = (Inl BadAccess, c)"
  by (simp add: throw_if_inactive_def throw_def)

lemma throw_if_inactive_active: "has_value_flag c \<Longrightarrow> throw_if_inactive c = (Inr (), c)"
  by (simp add: throw_if_inactive_def ret_def)

lemma value_lvalue_inactive: "\<not> has_value_flag c \<Longrightarrow> value_lvalue c = (Inl BadAccess, c)"
  unfolding value_lvalue_def by (rule seq_throws) (rule throw_if_inactive_inactive)

lemma value_const_lvalue_inactive:
  "\<not> has_value_flag c \<Longrightarrow> value_const_lvalue c = (Inl BadAccess, c)"
  unfolding value_const_lvalue_def by (rule seq_throws) (rule throw_if_inactive_inactive)

lemma release_value_inactive: "\<not> has_value_flag c \<Longrightarrow> release_value c = (Inl BadAccess, c)"
  unfolding release_value_def by (rule seq_throws) (rule throw_if_inactive_inactive)

subsection \<open>Access with a value\<close>

lemma launder_live: "value_buf c = Live v \<Longrightarrow> launder c = (Inr v, c)"
  by (simp add: launder_def ret_def)

lemma value_lvalue_holds: "holds c v \<Longrightarrow> value_lvalue c = (Inr v, c)"
  by (simp add: holds_def value_lvalue_def seq_returns throw_if_inactive_active launder_live)

lemma value_const_lvalue_holds: "holds c v \<Longrightarrow> value_const_lvalue c = (Inr v, c)"
  by (simp add: holds_def value_const_lvalue_def seq_returns throw_if_inactive_active
        launder_live)

lemma destroy_value_holds:
  "holds c v \<Longrightarrow>
     destroy_value c = (Inr (), c\<lparr>value_buf := Raw, history := history c @ [Destroy]\<rparr>)"
  by (simp add: destroy_value_def seq_returns value_lvalue_holds ret_def)

lemma release_value_holds:
  assumes "holds c v"
  shows "release_value c =
           (Inr v, c\<lparr>value_buf := Raw, history := history c @ [Destroy], has_value_flag := False\<rparr>)"
proof -
  from assms have "has_value_flag c"
    by (simp add: holds_def)
  then have check: "throw_if_inactive c = (Inr (), c)"
    by (rule throw_if_inactive_active)
  show ?thesis
    unfolding release_value_def
    by (simp add: seq_returns check value_lvalue_holds [OF assms] destroy_value_holds [OF assms]
          set_has_value_def ret_def)
qed

lemma forward_value_reference:
  "holds c v \<Longrightarrow> cat \<noteq> RValue \<Longrightarrow> forward_value cat c = (Inr v, c)"
  by (cases cat) (simp_all add: value_lvalue_holds value_const_lvalue_holds)

lemma forward_value_rvalue: "forward_value RValue c = release_value c"
  by (simp add: value_rvalue_def)

lemma all_fields_replaced:
  "c\<lparr>value_buf := b, history := hs, has_value_flag := f\<rparr>
     = \<lparr>has_value_flag = f, value_buf = b, history = hs\<rparr>"
  by (cases c) simp

lemma released_absent:
  "absent (c\<lparr>value_buf := Raw, history := hs, has_value_flag := False\<rparr>)"
  by (simp add: absent_def)

subsection \<open>Clearing and building\<close>

lemma clear_well_formed:
  "well_formed c \<Longrightarrow>
     clear c =
       (Inr (), c\<lparr>value_buf := Raw,
                  history := history c @ (if has_value_flag c then [Destroy] else []),
                  has_value_flag := False\<rparr>)"
  by (cases "value_buf c") (simp_all add: well_formed_def action_defs)

lemma construct_at_succeeds:
  "T_ctor args = Inr v \<Longrightarrow>
     construct_at T_ctor args c
       = (Inr (), c\<lparr>value_buf := Live v, history := history c @ [Construct v]\<rparr>)"
  by (simp add: construct_at_def ret_def)

lemma construct_at_throws: "T_ctor args = Inl e \<Longrightarrow> construct_at T_ctor args c = (Inl e, c)"
  by (simp add: construct_at_def throw_def)

lemma emplace_succeeds:
  "well_formed c \<Longrightarrow> T_ctor args = Inr v \<Longrightarrow>
     emplace T_ctor args c =
       (Inr (), c\<lparr>value_buf := Live v,
                  history := history c @ (if has_value_flag c then [Destroy] else []) @ [Construct v],
                  has_value_flag := True\<rparr>)"
  by (simp add: emplace_def seq_returns clear_well_formed construct_at_succeeds set_has_value_def)

text \<open>
  When the constructor throws, \<^verbatim>\<open>emplace\<close> has already cleared the container and set the
  flag.
\<close>

lemma emplace_throws:
  "well_formed c \<Longrightarrow> T_ctor args = Inl e \<Longrightarrow>
     emplace T_ctor args c =
       (Inl e, c\<lparr>value_buf := Raw,
                 history := history c @ (if has_value_flag c then [Destroy] else []),
                 has_value_flag := True\<rparr>)"
  by (simp add: emplace_def seq_returns clear_well_formed construct_at_throws set_has_value_def)

lemma Optional_forward_succeeds:
  "T_ctor args = Inr v \<Longrightarrow>
     Optional_forward T_ctor args g =
       Inr \<lparr>has_value_flag = True, value_buf = Live v, history = [Construct v]\<rparr>"
  by (simp add: Optional_forward_def construct_object_def member_init_def seq_returns
        construct_at_succeeds set_has_value_def)

lemma Optional_forward_throws: "T_ctor args = Inl e \<Longrightarrow> Optional_forward T_ctor args g = Inl e"
  by (simp add: Optional_forward_def construct_object_def seq_throws construct_at_throws)

lemma Optional_copy_present:
  "holds other v \<Longrightarrow>
     Optional_copy g other =
       Inr \<lparr>has_value_flag = True, value_buf = Live v, history = [Construct v]\<rparr>"
  by (simp add: Optional_copy_def holds_def build_defs action_defs)

lemma Optional_move_present:
  "holds other v \<Longrightarrow>
     Optional_move g other =
       (Inr \<lparr>has_value_flag = True, value_buf = Live v, history = [Construct v]\<rparr>,
        other\<lparr>value_buf := Raw, history := history other @ [Destroy], has_value_flag := False\<rparr>)"
  by (simp add: Optional_move_def holds_def build_defs action_defs)

text \<open>
  Built from a source without a value, the copy and the move constructor leave the flag as
  the memory had it.
\<close>

lemma Optional_copy_absent:
  "\<not> has_value_flag other \<Longrightarrow> Optional_copy g other = Inr (member_init g)"
  by (simp add: Optional_copy_def construct_object_def ret_def)

lemma Optional_move_absent:
  "\<not> has_value_flag other \<Longrightarrow> Optional_move g other = (Inr (member_init g), other)"
  by (simp add: Optional_move_def construct_object_def ret_def)

section \<open>Checked access\<close>

text \<open>
  C1. On a container whose flag is false, \<^verbatim>\<open>value()\<close> in each of its three overloads and
  \<^verbatim>\<open>release_value()\<close> fail with \<open>BadAccess\<close>, and the container they leave is the one
  they found: same flag, same buffer, no lifetime event added.
\<close>

theorem empty_access_fails:
  assumes "\<not> has_value_flag c"
  shows "forward_value cat c = (Inl BadAccess, c) \<and> release_value c = (Inl BadAccess, c)"
proof
  show "forward_value cat c = (Inl BadAccess, c)"
  proof (cases cat)
    case LValue
    with assms show ?thesis by (simp add: value_lvalue_inactive)
  next
    case ConstLValue
    with assms show ?thesis by (simp add: value_const_lvalue_inactive)
  next
    case RValue
    with assms show ?thesis by (simp add: value_rvalue_def release_value_inactive)
  qed
next
  from assms show "release_value c = (Inl BadAccess, c)"
    by (rule release_value_inactive)
qed

theorem empty_access_fails_witness:
  "\<not> has_value_flag (Optional_default :: int Optional) \<and>
   forward_value LValue (Optional_default :: int Optional) = (Inl BadAccess, Optional_default) \<and>
   release_value (Optional_default :: int Optional) = (Inl BadAccess, Optional_default)"
proof -
  have empty: "\<not> has_value_flag (Optional_default :: int Optional)"
    by (simp add: Optional_default_def)
  from empty empty_access_fails [OF empty, of LValue] show ?thesis
    by simp
qed

section \<open>The flag and the buffer\<close>

text \<open>
  C2. The claim asks every operation that sets the flag to construct the \<^verbatim>\<open>T\<close> first.
  \<^verbatim>\<open>emplace\<close> sets the flag and then constructs. With a constructor that throws, on an
  empty container, the exception leaves the flag set over a buffer in which nothing was
  constructed: \<^verbatim>\<open>has_value()\<close> answers true, \<^verbatim>\<open>value()\<close> dereferences a buffer that holds
  no object, and so does the destructor.
\<close>

theorem emplace_throwing_sets_flag_without_value:
  "emplace T_throwing () Optional_default
     = (Inl T_exception, \<lparr>has_value_flag = True, value_buf = Raw, history = []\<rparr>) \<and>
   has_value (snd (emplace T_throwing () Optional_default)) \<and>
   fst (value_lvalue (snd (emplace T_throwing () Optional_default))) = Inl InvalidStorage \<and>
   fst (Optional_dtor (snd (emplace T_throwing () Optional_default))) = Inl InvalidStorage"
  by (simp add: emplace_def T_throwing_def construct_at_def Optional_default_def has_value_def
        Optional_dtor_def action_defs)

section \<open>Move construction\<close>

text \<open>
  C3. The claim asks that moving from an empty container gives an empty container. The
  move constructor returns before it writes \<^verbatim>\<open>has_value_\<close>, which has no initializer: built
  in memory where that byte was set, the new container reports a value although its buffer
  holds none, and \<^verbatim>\<open>value()\<close> on it dereferences a buffer without an object.
\<close>

theorem move_from_empty_keeps_stale_flag:
  "Optional_move True (Optional_default :: int Optional)
     = (Inr \<lparr>has_value_flag = True, value_buf = Raw, history = []\<rparr>, Optional_default) \<and>
   absent (Optional_default :: int Optional) \<and>
   has_value \<lparr>has_value_flag = True, value_buf = (Raw :: int slot), history = []\<rparr> \<and>
   fst (value_lvalue \<lparr>has_value_flag = True, value_buf = (Raw :: int slot), history = []\<rparr>)
     = Inl InvalidStorage"
  by (simp add: Optional_move_def Optional_default_def absent_def has_value_def build_defs
        action_defs)

section \<open>Destructive extraction\<close>

text \<open>
  C4. On a container holding \<open>v\<close>, \<^verbatim>\<open>release_value()\<close> returns \<open>v\<close>, adds exactly one
  destructor call to the history of the buffer, and leaves the container absent; a second
  \<^verbatim>\<open>release_value()\<close> on what it left fails with \<open>BadAccess\<close>.
\<close>

theorem release_value_present:
  assumes "holds c v"
  shows
    "(case release_value c of (r, c') \<Rightarrow>
        r = Inr v \<and> history c' = history c @ [Destroy] \<and> absent c' \<and>
        release_value c' = (Inl BadAccess, c'))"
proof -
  let ?c' = "c\<lparr>value_buf := Raw, history := history c @ [Destroy], has_value_flag := False\<rparr>"
  have run: "release_value c = (Inr v, ?c')"
    using assms by (rule release_value_holds)
  have gone: "absent ?c'"
    by (rule released_absent)
  then have "\<not> has_value_flag ?c'"
    by (simp add: absent_def)
  then have again: "release_value ?c' = (Inl BadAccess, ?c')"
    by (rule release_value_inactive)
  from run gone again show ?thesis
    by simp
qed

theorem release_value_present_witness:
  "holds forty_two 42 \<and>
   release_value forty_two
     = (Inr 42, \<lparr>has_value_flag = False, value_buf = Raw, history = [Construct 42, Destroy]\<rparr>) \<and>
   release_value \<lparr>has_value_flag = False, value_buf = (Raw :: int slot), history = [Construct 42, Destroy]\<rparr>
     = (Inl BadAccess, \<lparr>has_value_flag = False, value_buf = Raw, history = [Construct 42, Destroy]\<rparr>)"
proof -
  have present: "holds forty_two 42"
    by (simp add: holds_def forty_two_def)
  from present release_value_present [OF present] show ?thesis
    by (simp add: forty_two_def absent_def action_defs)
qed

section \<open>Mapping\<close>

text \<open>
  C5. In every value category: on a container holding \<open>v\<close>, \<^verbatim>\<open>transform(fn)\<close> returns a
  newly built container of the mapped type that holds the result of \<open>fn\<close> on \<open>v\<close>, and the
  environment is the one a single call of \<open>fn\<close> on \<open>v\<close> leaves; on a container whose
  flag is false it returns a newly built empty container, and the container and the
  environment are untouched, so \<open>fn\<close> was not called.
\<close>

theorem transform_maps_or_skips:
  "(holds c v \<longrightarrow>
      (case transform cat fn g c u of (r, c', u') \<Rightarrow>
         r = Inr \<lparr>has_value_flag = True, value_buf = Live (fst (fn v u)),
                  history = [Construct (fst (fn v u))]\<rparr> \<and>
         u' = snd (snd (fn v u)))) \<and>
   (\<not> has_value_flag c \<longrightarrow>
      transform cat fn g c u
        = (Inr \<lparr>has_value_flag = False, value_buf = Raw, history = []\<rparr>, c, u))"
proof (intro conjI impI)
  assume present: "holds c v"
  then have flag: "has_value_flag c"
    by (simp add: holds_def)
  obtain r v' u' where call: "fn v u = (r, v', u')"
    by (cases "fn v u")
  have "T_move r = Inr r"
    by (simp add: T_move_def)
  then have built:
    "Optional_forward T_move r g
       = Inr \<lparr>has_value_flag = True, value_buf = Live r, history = [Construct r]\<rparr>"
    by (rule Optional_forward_succeeds)
  obtain c' where read: "forward_value cat c = (Inr v, c')"
  proof (cases "cat = RValue")
    case True
    with release_value_holds [OF present] that show ?thesis
      by (simp add: value_rvalue_def)
  next
    case False
    with forward_value_reference [OF present] that show ?thesis
      by simp
  qed
  from flag read call built
  show "case transform cat fn g c u of
          (r, c', u') \<Rightarrow>
            r = Inr \<lparr>has_value_flag = True, value_buf = Live (fst (fn v u)),
                     history = [Construct (fst (fn v u))]\<rparr> \<and>
            u' = snd (snd (fn v u))"
    by (simp add: transform_def)
next
  assume "\<not> has_value_flag c"
  then show "transform cat fn g c u
               = (Inr \<lparr>has_value_flag = False, value_buf = Raw, history = []\<rparr>, c, u)"
    by (simp add: transform_def Optional_default_def)
qed

theorem transform_maps_or_skips_witness:
  "holds forty_two 42 \<and>
   transform LValue count_call False forty_two 0
     = (Inr \<lparr>has_value_flag = True, value_buf = Live 84, history = [Construct 84]\<rparr>,
        forty_two, 1) \<and>
   \<not> has_value_flag (Optional_default :: int Optional) \<and>
   transform LValue count_call False Optional_default 0
     = (Inr \<lparr>has_value_flag = False, value_buf = Raw, history = []\<rparr>, Optional_default, 0)"
proof -
  have present: "holds forty_two 42"
    by (simp add: holds_def forty_two_def)
  have empty: "\<not> has_value_flag (Optional_default :: int Optional)"
    by (simp add: Optional_default_def)
  from present empty
    transform_maps_or_skips
      [where c = forty_two and v = 42 and cat = LValue and fn = count_call and g = False
         and u = 0]
    transform_maps_or_skips
      [where c = "Optional_default :: int Optional" and v = 42 and cat = LValue
         and fn = count_call and g = False and u = 0]
  show ?thesis
    by (simp add: count_call_def forty_two_def transform_def write_back.simps action_defs)
qed

section \<open>Chaining\<close>

text \<open>
  C6, as the claim states it, fails: called on an rvalue, \<^verbatim>\<open>and_then\<close> hands \<open>fn\<close> the
  value that \<^verbatim>\<open>value() &&\<close> extracts, and the container that held 42 has no value after
  the call.
\<close>

theorem and_then_rvalue_counterexample:
  "has_value_flag (fst (snd (and_then RValue count_call forty_two 0)))
     \<noteq> has_value_flag forty_two"
  by (simp add: and_then_def count_call_def forty_two_def action_defs)

text \<open>
  C6, amended. On a container whose flag is false, \<^verbatim>\<open>and_then(fn)\<close> raises nothing and
  leaves the container and the environment untouched, so \<open>fn\<close> was not called. On a
  container holding \<open>v\<close> it raises nothing, the environment is the one a single call of
  \<open>fn\<close> on \<open>v\<close> leaves, and what \<open>fn\<close> returns appears nowhere in the outcome. Called
  on an lvalue, const or not, the container still has a value afterwards; called on an
  rvalue, the container is left as \<^verbatim>\<open>release_value()\<close> leaves it, absent.
\<close>

theorem and_then_calls_iff_present:
  "(\<not> has_value_flag c \<longrightarrow> and_then cat fn c u = (Inr (), c, u)) \<and>
   (holds c v \<longrightarrow>
      (case and_then cat fn c u of (r, c', u') \<Rightarrow>
         r = Inr () \<and> u' = snd (snd (fn v u)) \<and>
         (cat \<noteq> RValue \<longrightarrow> has_value_flag c') \<and>
         (cat = RValue \<longrightarrow> absent c' \<and> c' = snd (release_value c))))"
proof (intro conjI impI)
  assume "\<not> has_value_flag c"
  then show "and_then cat fn c u = (Inr (), c, u)"
    by (simp add: and_then_def)
next
  assume present: "holds c v"
  then have flag: "has_value_flag c"
    by (simp add: holds_def)
  obtain r v' u' where call: "fn v u = (r, v', u')"
    by (cases "fn v u")
  show "case and_then cat fn c u of
          (r, c', u') \<Rightarrow>
            r = Inr () \<and> u' = snd (snd (fn v u)) \<and>
            (cat \<noteq> RValue \<longrightarrow> has_value_flag c') \<and>
            (cat = RValue \<longrightarrow> absent c' \<and> c' = snd (release_value c))"
  proof (cases cat)
    case LValue
    with flag call value_lvalue_holds [OF present] show ?thesis
      by (simp add: and_then_def)
  next
    case ConstLValue
    with flag call value_const_lvalue_holds [OF present] show ?thesis
      by (simp add: and_then_def)
  next
    case RValue
    with flag call release_value_holds [OF present] show ?thesis
      by (simp add: and_then_def value_rvalue_def absent_def)
  qed
qed

theorem and_then_calls_iff_present_witness:
  "\<not> has_value_flag (Optional_default :: int Optional) \<and>
   and_then LValue count_call Optional_default 0 = (Inr (), Optional_default, 0) \<and>
   holds forty_two 42 \<and>
   and_then LValue count_call forty_two 0 = (Inr (), forty_two, 1) \<and>
   and_then RValue count_call forty_two 0
     = (Inr (), \<lparr>has_value_flag = False, value_buf = Raw, history = [Construct 42, Destroy]\<rparr>, 1)"
proof -
  have present: "holds forty_two 42"
    by (simp add: holds_def forty_two_def)
  have empty: "\<not> has_value_flag (Optional_default :: int Optional)"
    by (simp add: Optional_default_def)
  from present empty
    and_then_calls_iff_present
      [where c = "Optional_default :: int Optional" and v = 42 and cat = LValue
         and fn = count_call and u = 0]
    and_then_calls_iff_present
      [where c = forty_two and v = 42 and cat = LValue and fn = count_call and u = 0]
    and_then_calls_iff_present
      [where c = forty_two and v = 42 and cat = RValue and fn = count_call and u = 0]
  show ?thesis
    by (simp add: count_call_def forty_two_def and_then_def action_defs)
qed

section \<open>Assignment\<close>

text \<open>
  C7. On a well-formed destination, copy-assignment and move-assignment raise nothing and
  return \<^verbatim>\<open>*this\<close>. The destination's history gains one destructor call when it held a
  value and none otherwise, and after that, when the source is another object holding
  \<open>v\<close>, one construction of \<open>v\<close>; the destination then holds \<open>v\<close>, and move-assignment
  leaves the source absent with one destructor call. When the source has no value, or
  when source and destination are the same object, nothing is constructed and the
  destination is left absent: in self-assignment the value is destroyed once and the
  cleared buffer is not read.
\<close>

theorem assignment_clears_then_rebuilds:
  assumes "well_formed (h this)"
  shows
   "(this \<noteq> other \<and> holds (h other) v \<longrightarrow>
       assign_copy this other h =
         (Inr this,
          h(this := \<lparr>has_value_flag = True, value_buf = Live v,
                     history = history (h this)
                               @ (if has_value_flag (h this) then [Destroy] else [])
                               @ [Construct v]\<rparr>)) \<and>
       assign_move this other h =
         (Inr this,
          h(this := \<lparr>has_value_flag = True, value_buf = Live v,
                     history = history (h this)
                               @ (if has_value_flag (h this) then [Destroy] else [])
                               @ [Construct v]\<rparr>,
            other := \<lparr>has_value_flag = False, value_buf = Raw,
                      history = history (h other) @ [Destroy]\<rparr>))) \<and>
    (this = other \<or> \<not> has_value_flag (h other) \<longrightarrow>
       assign_copy this other h =
         (Inr this,
          h(this := \<lparr>has_value_flag = False, value_buf = Raw,
                     history = history (h this)
                               @ (if has_value_flag (h this) then [Destroy] else [])\<rparr>)) \<and>
       assign_move this other h =
         (Inr this,
          h(this := \<lparr>has_value_flag = False, value_buf = Raw,
                     history = history (h this)
                               @ (if has_value_flag (h this) then [Destroy] else [])\<rparr>)))"
proof -
  let ?gone = "if has_value_flag (h this) then [Destroy] else []"
  let ?cleared =
    "\<lparr>has_value_flag = False, value_buf = Raw, history = history (h this) @ ?gone\<rparr>"
  let ?h1 = "h(this := ?cleared)"
  from assms have "clear (h this) = (Inr (), ?cleared)"
    by (simp add: clear_well_formed)
  then have cleared: "at_addr this clear h = (Inr (), ?h1)"
    by (rule at_addr_run)
  show ?thesis
  proof (intro conjI impI)
    assume "this \<noteq> other \<and> holds (h other) v"
    then have apart: "this \<noteq> other" and src: "holds (h other) v"
      by simp_all
    from apart src have flag: "has_value_flag (?h1 other)"
      by (simp add: holds_def)
    let ?flagged = "\<lparr>has_value_flag = True, value_buf = Raw, history = history (h this) @ ?gone\<rparr>"
    let ?h2 = "h(this := ?flagged)"
    have flagged: "at_addr this (set_has_value True) ?h1 = (Inr (), ?h2)"
      by (simp add: at_addr_def set_has_value_def)
    from apart src have copied: "at_addr other value_const_lvalue ?h2 = (Inr v, ?h2)"
      by (simp add: at_addr_def value_const_lvalue_holds fun_upd_idem_iff)
    let ?h3 =
      "?h2(other := \<lparr>has_value_flag = False, value_buf = Raw,
                       history = history (h other) @ [Destroy]\<rparr>)"
    from apart src have released: "at_addr other release_value ?h2 = (Inr v, ?h3)"
      by (simp add: at_addr_def release_value_holds all_fields_replaced)
    have build_copy:
      "at_addr this (construct_at T_copy v) ?h2
         = (Inr (),
            h(this := \<lparr>has_value_flag = True, value_buf = Live v,
                       history = history (h this) @ ?gone @ [Construct v]\<rparr>))"
      by (simp add: at_addr_def construct_at_def T_copy_def ret_def)
    from apart have build_move:
      "at_addr this (construct_at T_move v) ?h3
         = (Inr (),
            h(this := \<lparr>has_value_flag = True, value_buf = Live v,
                       history = history (h this) @ ?gone @ [Construct v]\<rparr>,
              other := \<lparr>has_value_flag = False, value_buf = Raw,
                        history = history (h other) @ [Destroy]\<rparr>))"
      by (simp add: at_addr_def construct_at_def T_move_def ret_def fun_upd_twist)
    from cleared flag flagged copied build_copy
    show "assign_copy this other h =
            (Inr this,
             h(this := \<lparr>has_value_flag = True, value_buf = Live v,
                        history = history (h this) @ ?gone @ [Construct v]\<rparr>))"
      by (simp add: assign_copy_def seq_def ret_def)
    from cleared flag flagged released build_move
    show "assign_move this other h =
            (Inr this,
             h(this := \<lparr>has_value_flag = True, value_buf = Live v,
                        history = history (h this) @ ?gone @ [Construct v]\<rparr>,
               other := \<lparr>has_value_flag = False, value_buf = Raw,
                         history = history (h other) @ [Destroy]\<rparr>))"
      by (simp add: assign_move_def seq_def ret_def)
  next
    assume "this = other \<or> \<not> has_value_flag (h other)"
    then have none: "\<not> has_value_flag (?h1 other)"
      by auto
    from cleared none show "assign_copy this other h = (Inr this, ?h1)"
      by (simp add: assign_copy_def seq_def ret_def)
    from cleared none show "assign_move this other h = (Inr this, ?h1)"
      by (simp add: assign_move_def seq_def ret_def)
  qed
qed

theorem assignment_clears_then_rebuilds_witness:
  "well_formed (two_heap 0) \<and> holds (two_heap 1) 9 \<and>
   assign_copy 0 1 two_heap
     = (Inr 0,
        two_heap(0 := \<lparr>has_value_flag = True, value_buf = Live 9,
                        history = [Construct 7, Destroy, Construct 9]\<rparr>)) \<and>
   assign_move 0 1 two_heap
     = (Inr 0,
        two_heap(0 := \<lparr>has_value_flag = True, value_buf = Live 9,
                        history = [Construct 7, Destroy, Construct 9]\<rparr>,
                 1 := \<lparr>has_value_flag = False, value_buf = Raw,
                        history = [Construct 9, Destroy]\<rparr>)) \<and>
   assign_copy 0 0 two_heap
     = (Inr 0,
        two_heap(0 := \<lparr>has_value_flag = False, value_buf = Raw,
                        history = [Construct 7, Destroy]\<rparr>)) \<and>
   assign_move 0 0 two_heap
     = (Inr 0,
        two_heap(0 := \<lparr>has_value_flag = False, value_buf = Raw,
                        history = [Construct 7, Destroy]\<rparr>)) \<and>
   \<not> has_value_flag (two_heap 2) \<and>
   assign_move 0 2 two_heap
     = (Inr 0,
        two_heap(0 := \<lparr>has_value_flag = False, value_buf = Raw,
                        history = [Construct 7, Destroy]\<rparr>))"
proof -
  have dest: "well_formed (two_heap 0)"
    by (simp add: well_formed_def two_heap_def)
  have src: "holds (two_heap 1) 9"
    by (simp add: holds_def two_heap_def)
  have none: "\<not> has_value_flag (two_heap 2)"
    by (simp add: two_heap_def blank_heap_def Optional_default_def)
  have at0: "has_value_flag (two_heap 0)" "history (two_heap 0) = [Construct 7]"
    by (simp_all add: two_heap_def)
  have at1: "history (two_heap 1) = [Construct 9]"
    by (simp add: two_heap_def)
  from dest src none at0 at1
    assignment_clears_then_rebuilds [where h = two_heap and this = 0 and other = 1 and v = 9]
    assignment_clears_then_rebuilds [where h = two_heap and this = 0 and other = 0 and v = 9]
    assignment_clears_then_rebuilds [where h = two_heap and this = 0 and other = 2 and v = 9]
  show ?thesis
    by simp
qed

section \<open>Fallback\<close>

text \<open>
  C8. In every value category, \<^verbatim>\<open>value_or(f)\<close> returns the contained value on a container
  holding one and returns \<open>f\<close> on a container whose flag is false; in both cases the
  outcome is a value, never an error.
\<close>

theorem value_or_returns_value_or_fallback:
  "(holds c v \<longrightarrow> fst (value_or cat f c) = Inr v) \<and>
   (\<not> has_value_flag c \<longrightarrow> value_or cat f c = (Inr f, c))"
proof (intro conjI impI)
  assume present: "holds c v"
  then have flag: "has_value_flag c"
    by (simp add: holds_def)
  show "fst (value_or cat f c) = Inr v"
  proof (cases "cat = RValue")
    case True
    with flag release_value_holds [OF present] show ?thesis
      by (simp add: value_or_def value_rvalue_def)
  next
    case False
    with flag forward_value_reference [OF present] show ?thesis
      by (simp add: value_or_def)
  qed
next
  assume "\<not> has_value_flag c"
  then show "value_or cat f c = (Inr f, c)"
    by (simp add: value_or_def ret_def)
qed

theorem value_or_returns_value_or_fallback_witness:
  "holds forty_two 42 \<and> fst (value_or ConstLValue 5 forty_two) = Inr 42 \<and>
   \<not> has_value_flag (Optional_default :: int Optional) \<and>
   value_or ConstLValue (5 :: int) Optional_default = (Inr 5, Optional_default)"
proof -
  have present: "holds forty_two 42"
    by (simp add: holds_def forty_two_def)
  have empty: "\<not> has_value_flag (Optional_default :: int Optional)"
    by (simp add: Optional_default_def)
  from present empty
    value_or_returns_value_or_fallback
      [where c = forty_two and v = 42 and cat = ConstLValue and f = 5]
    value_or_returns_value_or_fallback
      [where c = "Optional_default :: int Optional" and v = 42 and cat = ConstLValue and f = 5]
  show ?thesis
    by simp
qed

section \<open>Equality\<close>

text \<open>
  C9. With \<open>eq\<close> the equality of the contained type: against a bare value \<open>x\<close>, a
  container holding \<open>v\<close> compares as \<open>eq v x\<close> and a container whose flag is false
  compares unequal; two containers holding \<open>v\<close> and \<open>w\<close> compare as \<open>eq v w\<close>, two
  containers whose flags are false compare equal, and two containers whose flags differ
  compare unequal.
\<close>

theorem equality_compares_presence_then_value:
  "(holds c v \<longrightarrow> eq_value eq c x = Inr (eq v x)) \<and>
   (\<not> has_value_flag c \<longrightarrow> eq_value eq c x = Inr False) \<and>
   (holds c v \<and> holds d w \<longrightarrow> eq_optional eq' c d = Inr (eq' v w)) \<and>
   (\<not> has_value_flag c \<and> \<not> has_value_flag d \<longrightarrow> eq_optional eq' c d = Inr True) \<and>
   (has_value_flag c \<noteq> has_value_flag d \<longrightarrow> eq_optional eq' c d = Inr False)"
  by (auto simp add: holds_def eq_value_def eq_optional_def action_defs)

theorem equality_compares_presence_then_value_witness:
  "holds forty_two 42 \<and>
   eq_value (=) forty_two 42 = Inr True \<and>
   eq_value (=) forty_two 41 = Inr False \<and>
   eq_optional (=) forty_two forty_two = Inr True \<and>
   \<not> has_value_flag (Optional_default :: int Optional) \<and>
   eq_value (=) (Optional_default :: int Optional) 42 = Inr False \<and>
   eq_optional (=) (Optional_default :: int Optional) (Optional_default :: int Optional) = Inr True \<and>
   has_value_flag forty_two \<noteq> has_value_flag (Optional_default :: int Optional) \<and>
   eq_optional (=) forty_two (Optional_default :: int Optional) = Inr False"
proof -
  have present: "holds forty_two 42"
    by (simp add: holds_def forty_two_def)
  have empty: "\<not> has_value_flag (Optional_default :: int Optional)"
    by (simp add: Optional_default_def)
  have differ: "has_value_flag forty_two \<noteq> has_value_flag (Optional_default :: int Optional)"
    by (simp add: forty_two_def Optional_default_def)
  from present empty differ
    equality_compares_presence_then_value
      [where c = forty_two and v = 42 and eq = "(=)" and x = 42 and d = forty_two and w = 42
         and eq' = "(=)"]
    equality_compares_presence_then_value
      [where c = forty_two and v = 42 and eq = "(=)" and x = 41
         and d = "Optional_default :: int Optional" and w = 42 and eq' = "(=)"]
    equality_compares_presence_then_value
      [where c = "Optional_default :: int Optional" and v = 42 and eq = "(=)" and x = 42
         and d = "Optional_default :: int Optional" and w = 42 and eq' = "(=)"]
  show ?thesis
    by simp
qed

section \<open>Access on an expiring container\<close>

text \<open>
  C10. On a container holding \<open>v\<close> and accessed as an rvalue, \<^verbatim>\<open>value()\<close> and
  \<^verbatim>\<open>value_or(f)\<close> return \<open>v\<close>, and \<^verbatim>\<open>value()\<close>, \<^verbatim>\<open>value_or(f)\<close> and \<^verbatim>\<open>transform(fn)\<close> all
  leave the container as \<^verbatim>\<open>release_value()\<close> leaves it: absent.
\<close>

theorem rvalue_access_extracts:
  assumes "holds c v"
  shows
    "(case forward_value RValue c of (r, c') \<Rightarrow>
        r = Inr v \<and> absent c' \<and> c' = snd (release_value c)) \<and>
     (case value_or RValue f c of (r, c') \<Rightarrow>
        r = Inr v \<and> absent c' \<and> c' = snd (release_value c)) \<and>
     (case transform RValue fn g c u of (r, c', u') \<Rightarrow>
        absent c' \<and> c' = snd (release_value c))"
proof -
  let ?c' = "c\<lparr>value_buf := Raw, history := history c @ [Destroy], has_value_flag := False\<rparr>"
  from assms have flag: "has_value_flag c"
    by (simp add: holds_def)
  have taken: "forward_value RValue c = (Inr v, ?c')"
    using release_value_holds [OF assms] by (simp add: value_rvalue_def)
  have left: "snd (release_value c) = ?c'"
    using release_value_holds [OF assms] by simp
  have gone: "absent ?c'"
    by (rule released_absent)
  obtain r v' u' where call: "fn v u = (r, v', u')"
    by (cases "fn v u")
  from taken left gone have "case forward_value RValue c of
      (r, c') \<Rightarrow> r = Inr v \<and> absent c' \<and> c' = snd (release_value c)"
    by simp
  moreover from flag taken left gone have "case value_or RValue f c of
      (r, c') \<Rightarrow> r = Inr v \<and> absent c' \<and> c' = snd (release_value c)"
    by (simp add: value_or_def)
  moreover from flag taken left gone call have "case transform RValue fn g c u of
      (r, c', u') \<Rightarrow> absent c' \<and> c' = snd (release_value c)"
    by (simp add: transform_def)
  ultimately show ?thesis
    by simp
qed

theorem rvalue_access_extracts_witness:
  "holds forty_two 42 \<and>
   forward_value RValue forty_two
     = (Inr 42, \<lparr>has_value_flag = False, value_buf = Raw, history = [Construct 42, Destroy]\<rparr>) \<and>
   value_or RValue 5 forty_two
     = (Inr 42, \<lparr>has_value_flag = False, value_buf = Raw, history = [Construct 42, Destroy]\<rparr>) \<and>
   transform RValue count_call False forty_two 0
     = (Inr \<lparr>has_value_flag = True, value_buf = Live 84, history = [Construct 84]\<rparr>,
        \<lparr>has_value_flag = False, value_buf = Raw, history = [Construct 42, Destroy]\<rparr>, 1)"
proof -
  have present: "holds forty_two 42"
    by (simp add: holds_def forty_two_def)
  from present
    rvalue_access_extracts [OF present, where f = 5 and fn = count_call and g = False and u = 0]
  show ?thesis
    by (simp add: forty_two_def count_call_def value_or_def transform_def build_defs action_defs)
qed

section \<open>The scenario of the specification\<close>

text \<open>
  An empty \<^verbatim>\<open>Optional<int>\<close> has no value and \<^verbatim>\<open>value()\<close> on it fails; after
  \<^verbatim>\<open>emplace(42)\<close> it holds 42; \<^verbatim>\<open>transform\<close> with the doubling function gives a container
  holding 84 and leaves the original alone; \<^verbatim>\<open>release_value()\<close> returns 42 and empties it,
  and a second \<^verbatim>\<open>release_value()\<close> fails.
\<close>

lemma scenario:
  "\<not> has_value (Optional_default :: int Optional) \<and>
   fst (value_lvalue (Optional_default :: int Optional)) = Inl BadAccess \<and>
   emplace Inr 42 Optional_default = (Inr (), forty_two) \<and>
   has_value forty_two \<and>
   value_lvalue forty_two = (Inr 42, forty_two) \<and>
   transform LValue count_call False forty_two 0
     = (Inr \<lparr>has_value_flag = True, value_buf = Live 84, history = [Construct 84]\<rparr>,
        forty_two, 1) \<and>
   fst (release_value forty_two) = Inr 42 \<and>
   absent (snd (release_value forty_two)) \<and>
   fst (release_value (snd (release_value forty_two))) = Inl BadAccess"
  by (simp add: has_value_def Optional_default_def forty_two_def count_call_def emplace_def
        transform_def absent_def build_defs action_defs)

end
